theory Spec2Isabelle
  imports Main "HOL-Library.AList"
begin

section \<open>JavaScript values\<close>

text \<open>
  The values that flow through \<^verbatim>\<open>lib/hookio/hook.js\<close>: event payloads, callbacks,
  errors, option objects. Arrays and functions are objects too, so they carry a property
  list beside their elements (array) or their source text (function). Numbers are
  integers here; NaN and fractions do not occur in the code under study.
\<close>

datatype jsval =
    Undefined
  | Null
  | JBool bool
  | JNum int
  | JStr string
  | JObj "(string \<times> jsval) list"
  | JArr "jsval list" "(string \<times> jsval) list"
  | JFun string "(string \<times> jsval) list"

datatype js_error =
    TypeError
  | Error string

text \<open>Truthiness, as tested by \<^verbatim>\<open>if (v)\<close>, \<^verbatim>\<open>!v\<close> and \<^verbatim>\<open>a && b\<close>.\<close>

fun truthy :: "jsval \<Rightarrow> bool" where
  "truthy Undefined = False"
| "truthy Null = False"
| "truthy (JBool b) = b"
| "truthy (JNum n) = (n \<noteq> 0)"
| "truthy (JStr s) = (s \<noteq> [])"
| "truthy (JObj fs) = True"
| "truthy (JArr xs fs) = True"
| "truthy (JFun src fs) = True"

text \<open>\<^verbatim>\<open>typeof v === 'function'\<close>, \<^verbatim>\<open>typeof v === 'string'\<close>, \<^verbatim>\<open>v instanceof Array\<close>.\<close>

fun is_function :: "jsval \<Rightarrow> bool" where
  "is_function (JFun src fs) = True"
| "is_function v = False"

fun is_string :: "jsval \<Rightarrow> bool" where
  "is_string (JStr s) = True"
| "is_string v = False"

fun is_array :: "jsval \<Rightarrow> bool" where
  "is_array (JArr xs fs) = True"
| "is_array v = False"

fun is_boolean :: "jsval \<Rightarrow> bool" where
  "is_boolean (JBool b) = True"
| "is_boolean v = False"

text \<open>
  Reading a property \<^verbatim>\<open>v.k\<close>: a TypeError on undefined and null, the stored value on
  an object, undefined where the property is missing. (Primitives have no own
  properties; the inherited ones, such as a string's length, are not read by the code.)
\<close>

fun getProp :: "jsval \<Rightarrow> string \<Rightarrow> js_error + jsval" where
  "getProp Undefined k = Inl TypeError"
| "getProp Null k = Inl TypeError"
| "getProp (JObj fs) k = Inr (case map_of fs k of Some v \<Rightarrow> v | None \<Rightarrow> Undefined)"
| "getProp (JArr xs fs) k = Inr (case map_of fs k of Some v \<Rightarrow> v | None \<Rightarrow> Undefined)"
| "getProp (JFun src fs) k = Inr (case map_of fs k of Some v \<Rightarrow> v | None \<Rightarrow> Undefined)"
| "getProp v k = Inr Undefined"

text \<open>
  Writing a property \<^verbatim>\<open>v.k = x\<close> (the file is not in strict mode): a TypeError on
  undefined and null, silently nothing on the other primitives, a stored property on an
  object.
\<close>

fun setProp :: "jsval \<Rightarrow> string \<Rightarrow> jsval \<Rightarrow> js_error + jsval" where
  "setProp Undefined k x = Inl TypeError"
| "setProp Null k x = Inl TypeError"
| "setProp (JObj fs) k x = Inr (JObj (AList.update k x fs))"
| "setProp (JArr xs fs) k x = Inr (JArr xs (AList.update k x fs))"
| "setProp (JFun src fs) k x = Inr (JFun src (AList.update k x fs))"
| "setProp v k x = Inr v"

section \<open>Strings: the delimiter, split, join, decimal numerals\<close>

definition DELIMITER :: string where
  "DELIMITER = ''::''"

text \<open>
  \<^verbatim>\<open>s.split(sep)\<close>: the separator is searched from the left, matches do not overlap,
  and the result always has at least one part when the separator is not empty.
\<close>

function split_from :: "string \<Rightarrow> string \<Rightarrow> string \<Rightarrow> string list" where
  "split_from sep acc [] = [acc]"
| "split_from sep acc (c # cs) =
     (if sep \<noteq> [] \<and> take (length sep) (c # cs) = sep
      then acc # split_from sep [] (drop (length sep) (c # cs))
      else split_from sep (acc @ [c]) cs)"
  by pat_completeness auto
termination
  by (relation "measure (\<lambda>(sep, acc, s). length s)") auto

definition split :: "string \<Rightarrow> string \<Rightarrow> string list" where
  "split sep s = (if sep = [] then map (\<lambda>c. [c]) s else split_from sep [] s)"

text \<open>\<^verbatim>\<open>parts.join(sep)\<close> on an array of strings.\<close>

fun join :: "string \<Rightarrow> string list \<Rightarrow> string" where
  "join sep [] = []"
| "join sep [p] = p"
| "join sep (p # q # ps) = p @ sep @ join sep (q # ps)"

text \<open>The decimal numeral of a counter, as \<^verbatim>\<open>name + '-' + id\<close> renders it.\<close>

definition digit :: "nat \<Rightarrow> char" where
  "digit d = ''0123456789'' ! d"

function show_nat :: "nat \<Rightarrow> string" where
  "show_nat n = (if n < 10 then [digit n] else show_nat (n div 10) @ [digit (n mod 10)])"
  by pat_completeness auto
termination
  by (relation "measure id") auto

declare show_nat.simps [simp del]

definition show_int :: "int \<Rightarrow> string" where
  "show_int n = (if n < 0 then ''-'' @ show_nat (nat (- n)) else show_nat (nat n))"

text \<open>
  The property key a value is coerced to in \<^verbatim>\<open>obj[v]\<close>: a string is its own key,
  the other primitives are their literal names, an array is the comma-join of its
  elements (null and undefined as the empty string), a plain object is
  \<^verbatim>\<open>[object Object]\<close>, a function is its source text.
\<close>

fun toKey :: "jsval \<Rightarrow> string" where
  "toKey Undefined = ''undefined''"
| "toKey Null = ''null''"
| "toKey (JBool b) = (if b then ''true'' else ''false'')"
| "toKey (JNum n) = show_int n"
| "toKey (JStr s) = s"
| "toKey (JObj fs) = ''[object Object]''"
| "toKey (JArr xs fs) =
     join '','' (map (\<lambda>x. if x = Undefined \<or> x = Null then [] else toKey x) xs)"
| "toKey (JFun src fs) = src"

section \<open>The registry \<^verbatim>\<open>self._names\<close>\<close>

text \<open>
  One entry per known hook: \<^verbatim>\<open>{name, type, session, remote: {port, host}, events}\<close>.
  \<^verbatim>\<open>checkName\<close> creates an entry as \<^verbatim>\<open>{name: _name}\<close>, so every other field may be
  undefined, and the name is whatever value was reported. \<^verbatim>\<open>events\<close> maps a listener
  pattern to the number of listeners counted for it.
\<close>

record entry =
  e_name :: jsval
  e_type :: jsval
  e_session :: "nat option"
  e_remote :: "(jsval \<times> jsval) option"
  e_events :: "(string \<times> int) list option"

text \<open>
  The registry is the plain object \<^verbatim>\<open>this._names = {}\<close> of line 61. Its own properties
  are an association list: an assignment to a present key replaces the value in place,
  a new key is added at the end (the code never reads the order of the keys, in which
  \<^verbatim>\<open>Object.keys\<close> puts those that spell an integer first). Beside them the object has a prototype, and the key
  \<^verbatim>\<open>__proto__\<close> stands for it: \<^verbatim>\<open>self._names['__proto__']\<close> reads the prototype, and
  \<^verbatim>\<open>self._names['__proto__'] = {...}\<close> replaces the prototype by that object and adds no
  own property, so that \<^verbatim>\<open>Object.keys\<close> never lists the key. The prototype is
  \<open>None\<close> while it is \<^verbatim>\<open>Object.prototype\<close>, which has no \<^verbatim>\<open>events\<close>, and the entry
  that replaced it afterwards. The other names an object inherits (such as
  \<^verbatim>\<open>constructor\<close>, and the field names of an entry that has become the prototype) are
  read by the code as those properties; the model does not have them, neither here nor
  in an \<^verbatim>\<open>events\<close> table.
\<close>

type_synonym registry = "(string \<times> entry) list"

datatype names_value =
    Missing
  | ObjectPrototype
  | AnEntry entry

text \<open>\<^verbatim>\<open>self._names[k]\<close>, read and assigned.\<close>

definition names_get :: "registry \<Rightarrow> entry option \<Rightarrow> string \<Rightarrow> names_value" where
  "names_get names proto k =
     (case map_of names k of
        Some e \<Rightarrow> AnEntry e
      | None \<Rightarrow>
          if k = ''__proto__''
          then (case proto of Some p \<Rightarrow> AnEntry p | None \<Rightarrow> ObjectPrototype)
          else Missing)"

definition names_put ::
  "registry \<Rightarrow> entry option \<Rightarrow> string \<Rightarrow> entry \<Rightarrow> registry \<times> entry option" where
  "names_put names proto k e =
     (if k = ''__proto__'' \<and> map_of names k = None then (names, Some e)
      else (AList.update k e names, proto))"

text \<open>
  \<^verbatim>\<open>_addOrRemoveEvent(clientName, event, data)\<close> (lines 398-414), on the own properties
  and the prototype of the registry. The result is the returned boolean and the
  registry after the call; a TypeError where the entry or its \<^verbatim>\<open>events\<close> table is
  undefined and is read.
\<close>

definition addOrRemoveEvent ::
  "registry \<Rightarrow> entry option \<Rightarrow> jsval \<Rightarrow> string \<Rightarrow> jsval
     \<Rightarrow> js_error + (bool \<times> registry \<times> entry option)" where
  "addOrRemoveEvent names proto clientName event data =
     (case names_get names proto (toKey clientName) of
        Missing \<Rightarrow> Inl TypeError
      | ObjectPrototype \<Rightarrow>
          if event = ''newListener'' \<or> event = ''removeListener''
             \<or> event = ''removeAllListeners''
          then Inl TypeError
          else Inr (False, names, proto)
      | AnEntry e \<Rightarrow>
          if event = ''newListener'' then
            (case e_events e of
               None \<Rightarrow> Inl TypeError
             | Some events \<Rightarrow>
                 let old = (case map_of events (toKey data) of
                              Some n \<Rightarrow> if n \<noteq> 0 then n else 0
                            | None \<Rightarrow> 0);
                     events' = AList.update (toKey data) (old + 1) events
                 in Inr (True,
                      names_put names proto (toKey clientName) (e\<lparr>e_events := Some events'\<rparr>)))
          else if event = ''removeListener'' then
            (case e_events e of
               None \<Rightarrow> Inl TypeError
             | Some events \<Rightarrow>
                 (case map_of events (toKey data) of
                    None \<Rightarrow> Inr (True, names, proto)
                  | Some n \<Rightarrow>
                      if n \<noteq> 0 then
                        let decremented = AList.update (toKey data) (n - 1) events;
                            events' = (if n - 1 \<le> 0
                                       then AList.delete (toKey data) decremented
                                       else decremented)
                        in Inr (True,
                             names_put names proto (toKey clientName)
                               (e\<lparr>e_events := Some events'\<rparr>))
                      else Inr (True, names, proto)))
          else if event = ''removeAllListeners'' then
            (case e_events e of
               None \<Rightarrow> Inl TypeError
             | Some events \<Rightarrow>
                 Inr (True,
                   names_put names proto (toKey clientName)
                     (e\<lparr>e_events := Some (AList.delete (toKey data) events)\<rparr>)))
          else Inr (False, names, proto))"

text \<open>\<^verbatim>\<open>_registerEvents(clientName, events)\<close> (lines 416-420).\<close>

fun registerEvents ::
  "registry \<Rightarrow> entry option \<Rightarrow> jsval \<Rightarrow> jsval list \<Rightarrow> js_error + (registry \<times> entry option)" where
  "registerEvents names proto clientName [] = Inr (names, proto)"
| "registerEvents names proto clientName (event # events) =
     (case addOrRemoveEvent names proto clientName ''newListener'' event of
        Inl err \<Rightarrow> Inl err
      | Inr (handled, names', proto') \<Rightarrow> registerEvents names' proto' clientName events)"

subsection \<open>Decimal numerals are injective\<close>

lemma digit_inj: "a < 10 \<Longrightarrow> b < 10 \<Longrightarrow> digit a = digit b \<Longrightarrow> a = b"
proof -
  assume a: "a < 10" and b: "b < 10" and eq: "digit a = digit b"
  have "distinct ''0123456789''" by simp
  moreover have "a < length ''0123456789''" "b < length ''0123456789''" using a b by simp_all
  ultimately show "a = b" using eq unfolding digit_def by (simp only: nth_eq_iff_index_eq)
qed

lemma show_nat_nonempty: "show_nat n \<noteq> []"
  by (subst show_nat.simps) simp

lemma show_nat_length_ge2: "10 \<le> n \<Longrightarrow> 2 \<le> length (show_nat n)"
  using show_nat_nonempty [of "n div 10"]
  by (subst show_nat.simps) (cases "show_nat (n div 10)", auto)

lemma show_nat_inj: "show_nat n = show_nat m \<Longrightarrow> n = m"
proof (induction n arbitrary: m rule: show_nat.induct)
  case (1 n)
  show ?case
  proof (cases "n < 10")
    case small: True
    show ?thesis
    proof (cases "m < 10")
      case True
      with small "1.prems" show ?thesis
        by (simp add: show_nat.simps [of n] show_nat.simps [of m] digit_inj)
    next
      case False
      then have "2 \<le> length (show_nat m)" by (simp add: show_nat_length_ge2)
      moreover have "length (show_nat n) = 1" using small by (simp add: show_nat.simps [of n])
      ultimately show ?thesis using "1.prems" by simp
    qed
  next
    case big: False
    show ?thesis
    proof (cases "m < 10")
      case True
      then have "length (show_nat m) = 1" by (simp add: show_nat.simps [of m])
      moreover have "2 \<le> length (show_nat n)" using big by (simp add: show_nat_length_ge2)
      ultimately show ?thesis using "1.prems" by simp
    next
      case False
      from "1.prems" big False
      have eq: "show_nat (n div 10) @ [digit (n mod 10)] = show_nat (m div 10) @ [digit (m mod 10)]"
        by (simp add: show_nat.simps [of n] show_nat.simps [of m])
      then have "show_nat (n div 10) = show_nat (m div 10)" and d: "digit (n mod 10) = digit (m mod 10)"
        by simp_all
      then have "n div 10 = m div 10" using "1.IH" big by simp
      moreover have "n mod 10 = m mod 10" using d by (simp add: digit_inj)
      ultimately show ?thesis by (metis div_mult_mod_eq)
    qed
  qed
qed


lemma show_nat_small: "n < 10 \<Longrightarrow> show_nat n = [digit n]"
  by (subst show_nat.simps) simp

lemma show_nat_big: "10 \<le> n \<Longrightarrow> show_nat n = show_nat (n div 10) @ [digit (n mod 10)]"
  by (subst show_nat.simps) simp

subsection \<open>Name assignment\<close>

text \<open>
  The pieces of \<^verbatim>\<open>checkName\<close>: the candidate \<^verbatim>\<open>name + '-' + id\<close>, the entry
  \<^verbatim>\<open>{name: _name}\<close> it stores, and its test
  \<^verbatim>\<open>Object.keys(self._names).indexOf(_name) === -1 && self.name !== _name\<close>. The keys
  and the server's name are strings and both comparisons are strict, so a candidate that
  is not a string always passes the test.
\<close>

definition suffixed :: "string \<Rightarrow> nat \<Rightarrow> string" where
  "suffixed name i = name @ ''-'' @ show_nat i"

definition fresh_entry :: "jsval \<Rightarrow> entry" where
  "fresh_entry name' =
     \<lparr>e_name = name', e_type = Undefined, e_session = None, e_remote = None, e_events = None\<rparr>"

definition available :: "string \<Rightarrow> registry \<Rightarrow> string \<Rightarrow> bool" where
  "available self_name names name' \<longleftrightarrow> name' \<notin> set (map fst names) \<and> self_name \<noteq> name'"

definition name_free :: "string \<Rightarrow> registry \<Rightarrow> jsval \<Rightarrow> bool" where
  "name_free self_name names name' =
     (case name' of JStr s \<Rightarrow> available self_name names s | other \<Rightarrow> True)"

lemma suffixed_inj: "suffixed name i = suffixed name j \<Longrightarrow> i = j"
  by (simp add: suffixed_def show_nat_inj)

lemma finite_unavailable: "finite {k. \<not> available self_name names (suffixed name k)}"
proof -
  have "{k. \<not> available self_name names (suffixed name k)}
        = suffixed name -` (set (map fst names) \<union> {self_name})"
    by (auto simp: available_def)
  moreover have "inj (suffixed name)"
    by (rule injI) (rule suffixed_inj)
  ultimately show ?thesis
    by (simp add: finite_vimageI)
qed

text \<open>The counters from \<open>i\<close> on whose candidate is not free: the measure of the recursion.\<close>

definition taken :: "string \<Rightarrow> registry \<Rightarrow> string \<Rightarrow> nat \<Rightarrow> nat set" where
  "taken self_name names name i = {k. i \<le> k \<and> \<not> available self_name names (suffixed name k)}"

lemma finite_taken: "finite (taken self_name names name i)"
  by (rule finite_subset [OF _ finite_unavailable [of self_name names name]])
     (auto simp: taken_def)

lemma taken_Suc_less:
  assumes "\<not> available self_name names (suffixed name i)"
  shows "card (taken self_name names name (Suc i)) < card (taken self_name names name i)"
proof (rule psubset_card_mono [OF finite_taken])
  have "i \<in> taken self_name names name i" using assms by (simp add: taken_def)
  moreover have "i \<notin> taken self_name names name (Suc i)" by (simp add: taken_def)
  moreover have "taken self_name names name (Suc i) \<subseteq> taken self_name names name i"
    by (auto simp: taken_def)
  ultimately show "taken self_name names name (Suc i) \<subset> taken self_name names name i"
    by blast
qed

text \<open>
  \<^verbatim>\<open>checkName(name, id)\<close> (lines 446-464), nested in the \<^verbatim>\<open>report\<close> handler. It reads
  the server's own name and the registry, and stores \<^verbatim>\<open>{name: _name}\<close> under the
  first name it finds free. The counter \<^verbatim>\<open>id\<close> is undefined in the first call, where
  the candidate is the reported value itself; the later candidates are strings. The
  recursion ends because the registry is finite and the candidates are pairwise
  different.
\<close>

function checkName ::
  "string \<Rightarrow> registry \<Rightarrow> entry option \<Rightarrow> jsval \<Rightarrow> nat option
     \<Rightarrow> jsval \<times> registry \<times> entry option" where
  "checkName self_name names proto name None =
     (if name_free self_name names name
      then (name, names_put names proto (toKey name) (fresh_entry name))
      else checkName self_name names proto name (Some 0))"
| "checkName self_name names proto name (Some i) =
     (if name_free self_name names (JStr (suffixed (toKey name) i))
      then (JStr (suffixed (toKey name) i),
            names_put names proto (suffixed (toKey name) i)
              (fresh_entry (JStr (suffixed (toKey name) i))))
      else checkName self_name names proto name (Some (i + 1)))"
  by pat_completeness auto
termination
proof (relation "measure (\<lambda>(self_name, names, proto, name, id).
          case id of None \<Rightarrow> Suc (card (taken self_name names (toKey name) 0))
                   | Some i \<Rightarrow> card (taken self_name names (toKey name) i))")
  show "wf (measure (\<lambda>(self_name, names, proto, name, id).
          case id of None \<Rightarrow> Suc (card (taken self_name names (toKey name) 0))
                   | Some i \<Rightarrow> card (taken self_name names (toKey name) i)))"
    by simp
next
  fix self_name :: string and names :: registry and proto :: "entry option" and name :: jsval
  show "((self_name, names, proto, name, Some 0), (self_name, names, proto, name, None))
        \<in> measure (\<lambda>(self_name, names, proto, name, id).
          case id of None \<Rightarrow> Suc (card (taken self_name names (toKey name) 0))
                   | Some i \<Rightarrow> card (taken self_name names (toKey name) i))"
    by simp
next
  fix self_name :: string and names :: registry and proto :: "entry option" and name :: jsval
    and i :: nat
  assume "\<not> name_free self_name names (JStr (suffixed (toKey name) i))"
  then have "\<not> available self_name names (suffixed (toKey name) i)"
    by (simp add: name_free_def)
  then show "((self_name, names, proto, name, Some (i + 1)), (self_name, names, proto, name, Some i))
        \<in> measure (\<lambda>(self_name, names, proto, name, id).
          case id of None \<Rightarrow> Suc (card (taken self_name names (toKey name) 0))
                   | Some i \<Rightarrow> card (taken self_name names (toKey name) i))"
    using taken_Suc_less [of self_name names "toKey name" i] by simp
qed

declare checkName.simps [simp del]

section \<open>The hook and the \<^verbatim>\<open>report\<close> handler of the server\<close>

text \<open>
  The fields of a hook that the functions below read or write: \<^verbatim>\<open>self.name\<close>,
  \<^verbatim>\<open>self.pkginfo\<close>, whether \<^verbatim>\<open>self.remote\<close> (the connection to a server) and
  \<^verbatim>\<open>self.server\<close> are set, \<^verbatim>\<open>self._names\<close> (its own properties, and its prototype
  once replaced), \<^verbatim>\<open>self.transports\<close>, \<^verbatim>\<open>self['hook-port']\<close> and \<^verbatim>\<open>self.id\<close>.
\<close>

record transport =
  t_type :: string
  t_options :: jsval

record hook =
  h_name :: string
  h_pkginfo :: jsval
  h_remote :: bool
  h_server :: bool
  h_names :: registry
  h_names_proto :: "entry option"
  h_transports :: "transport list"
  h_port :: jsval
  h_id :: jsval

text \<open>
  A connection as the \<^verbatim>\<open>report\<close> handler sees it: \<^verbatim>\<open>conn.id\<close> and the remote port and
  address of its session's stream. The reported data is \<^verbatim>\<open>{name, type, events}\<close>: the
  handler takes the name and the type as whatever values the client reports, and calls
  \<^verbatim>\<open>forEach\<close> on the events, an array.
\<close>

record conn =
  conn_id :: nat
  remotePort :: jsval
  remoteAddress :: jsval

record descriptor =
  d_name :: jsval
  d_type :: jsval
  d_events :: "jsval list"

text \<open>
  \<^verbatim>\<open>report(hook, cb)\<close> (lines 435-484): the name is assigned by \<^verbatim>\<open>checkName(name)\<close>,
  the entry \<^verbatim>\<open>self._names[client.name]\<close> is filled in, the reported events are
  registered, and the reply is \<^verbatim>\<open>cb(client.name, null, self.pkginfo)\<close>.
\<close>

definition report ::
  "hook \<Rightarrow> conn \<Rightarrow> descriptor \<Rightarrow> js_error + (hook \<times> (jsval \<times> jsval \<times> jsval))" where
  "report self c d =
     (let (client_name, names1, proto1) =
            checkName (h_name self) (h_names self) (h_names_proto self) (d_name d) None
      in case names_get names1 proto1 (toKey client_name) of
           AnEntry reporter \<Rightarrow>
             (let (names2, proto2) =
                    names_put names1 proto1 (toKey client_name)
                      (reporter\<lparr>e_type := d_type d, e_session := Some (conn_id c),
                                e_remote := Some (remotePort c, remoteAddress c),
                                e_events := Some []\<rparr>)
              in case registerEvents names2 proto2 client_name (d_events d) of
                   Inl err \<Rightarrow> Inl err
                 | Inr (names3, proto3) \<Rightarrow>
                     Inr (self\<lparr>h_names := names3, h_names_proto := proto3\<rparr>,
                          (client_name, Null, h_pkginfo self)))
         | other \<Rightarrow> Inl TypeError)"

text \<open>A sequence of reports, one per connecting client; the names assigned, in order.\<close>

fun reports :: "hook \<Rightarrow> (conn \<times> descriptor) list \<Rightarrow> js_error + (hook \<times> jsval list)" where
  "reports self [] = Inr (self, [])"
| "reports self ((c, d) # rest) =
     (case report self c d of
        Inl err \<Rightarrow> Inl err
      | Inr (self', (client_name, newID, pkginfo)) \<Rightarrow>
          (case reports self' rest of
             Inl err \<Rightarrow> Inl err
           | Inr (self'', assigned) \<Rightarrow> Inr (self'', client_name # assigned)))"

section \<open>\<^verbatim>\<open>Hook.prototype.emit\<close>\<close>

text \<open>
  A callback travelling with an event is either the value the caller passed or the
  callback that \<^verbatim>\<open>emit\<close> creates (lines 222-235), a closure over the event name and the
  data.
\<close>

datatype callback =
    Passed jsval
  | Synthesized string jsval

text \<open>
  The server's view of a connected client: \<^verbatim>\<open>client.name\<close> (undefined until the client
  has reported) and whether the client exports a \<^verbatim>\<open>message\<close> function.
\<close>

record client =
  c_name :: jsval
  c_message :: bool

text \<open>
  What a function does to the world outside the hook's own fields, in the order it does
  it: calls of the logger, of a transport's \<^verbatim>\<open>message\<close>, of the server's \<^verbatim>\<open>message\<close>
  (through \<^verbatim>\<open>self.remote\<close>), of EventEmitter2's own \<^verbatim>\<open>emit\<close>, \<^verbatim>\<open>off\<close> and
  \<^verbatim>\<open>removeAllListeners\<close>, of \<^verbatim>\<open>self.emit\<close>, of a client's \<^verbatim>\<open>message\<close>, of
  \<^verbatim>\<open>self.connect\<close>, and of a callback with a list of arguments.
\<close>

datatype action =
    Log string jsval
  | TransportMessage transport string jsval callback
  | RemoteMessage string jsval callback
  | LocalEmit string jsval callback
  | LocalOff jsval jsval
  | LocalRemoveAllListeners jsval
  | Emit string jsval
  | ClientMessage client string jsval callback
  | Connect jsval jsval
  | Apply jsval "jsval list"

type_synonym outcome = "action list \<times> js_error option \<times> hook"

text \<open>
  The transport table \<^verbatim>\<open>_transports\<close> (lines 24-26) has the single key \<^verbatim>\<open>couchdb\<close>;
  \<^verbatim>\<open>_transports[transport.type].message(...)\<close> is a TypeError for any other type, and
  ends the \<^verbatim>\<open>forEach\<close> there.
\<close>

definition transport_types :: "string list" where
  "transport_types = [''couchdb'']"

fun transports_forEach ::
  "transport list \<Rightarrow> (transport \<Rightarrow> action) \<Rightarrow> action list \<times> js_error option" where
  "transports_forEach [] f = ([], None)"
| "transports_forEach (t # ts) f =
     (if t_type t \<in> set transport_types
      then (let (sent, err) = transports_forEach ts f in (f t # sent, err))
      else ([], Some TypeError))"

text \<open>
  In line 242 \<^verbatim>\<open>this.name\<close> is read inside the function given to \<^verbatim>\<open>forEach\<close>, where
  \<^verbatim>\<open>this\<close> is not the hook but the global object, whose \<^verbatim>\<open>name\<close> is undefined.
\<close>

definition global_this_name :: string where
  "global_this_name = toKey Undefined"

definition reserved :: "string list" where
  "reserved = [''newListener'', ''removeListener'', ''remoteAllListeners'']"

text \<open>\<^verbatim>\<open>Hook.prototype.emit (event, data, callback)\<close> (lines 174-262).\<close>

definition emit :: "hook \<Rightarrow> string \<Rightarrow> jsval \<Rightarrow> jsval \<Rightarrow> outcome" where
  "emit self event data callback =
     (if event \<in> set reserved then
        (if h_remote self then
           ([RemoteMessage event data (Passed callback),
             LocalEmit event data (Passed callback)], None, self)
         else if h_server self then
           (case addOrRemoveEvent (h_names self) (h_names_proto self)
                   (JStr (h_name self)) event data of
              Inl err \<Rightarrow> ([], Some err, self)
            | Inr (handled, names', proto') \<Rightarrow>
                ([LocalEmit event data (Passed callback)], None,
                 self\<lparr>h_names := names', h_names_proto := proto'\<rparr>))
         else ([LocalEmit event data (Passed callback)], None, self))
      else
        (let (data', callback') = (if is_function data then (Null, data) else (data, callback));
             cb = (if is_function callback' then Passed callback' else Synthesized event data');
             (sent, err) = transports_forEach (h_transports self)
                 (\<lambda>t. TransportMessage t (global_this_name @ DELIMITER @ event) data' cb)
         in case err of
              Some e \<Rightarrow> (Log event data # sent, Some e, self)
            | None \<Rightarrow>
                (Log event data # sent
                   @ (if h_remote self
                      then [RemoteMessage (h_name self @ DELIMITER @ event) data' cb]
                      else [])
                   @ [LocalEmit event data' cb],
                 None, self)))"

text \<open>
  The synthesized callback \<^verbatim>\<open>function (err, result)\<close> (lines 222-235): the call of
  \<^verbatim>\<open>self.emit\<close> it makes, or the TypeError of \<^verbatim>\<open>result.ctx = data\<close>.
\<close>

definition synthesized_callback ::
  "string \<Rightarrow> jsval \<Rightarrow> jsval \<Rightarrow> jsval \<Rightarrow> js_error + action" where
  "synthesized_callback event data err result =
     (if truthy err then
        (case setProp err ''ctx'' data of
           Inl e \<Rightarrow> Inl e
         | Inr err' \<Rightarrow> Inr (Emit (event @ ''::error'') err'))
      else
        (case setProp result ''ctx'' data of
           Inl e \<Rightarrow> Inl e
         | Inr result' \<Rightarrow> Inr (Emit (event @ ''::result'') result')))"

text \<open>Calling a callback with \<^verbatim>\<open>(err, result)\<close>, as a listener or a transport does.\<close>

fun invoke :: "callback \<Rightarrow> jsval \<Rightarrow> jsval \<Rightarrow> js_error + action" where
  "invoke (Synthesized event data) err result = synthesized_callback event data err result"
| "invoke (Passed f) err result =
     (if is_function f then Inr (Apply f [err, result]) else Inl TypeError)"

text \<open>\<^verbatim>\<open>Hook.prototype.off\<close> (lines 738-741) and \<^verbatim>\<open>Hook.prototype.removeAllListeners\<close>
  (lines 743-746).\<close>

definition off :: "hook \<Rightarrow> jsval \<Rightarrow> jsval \<Rightarrow> outcome" where
  "off self type listener =
     (let (acts, err, self') = emit self ''removeListener'' type listener
      in (LocalOff type listener # acts, err, self'))"

definition removeAllListeners :: "hook \<Rightarrow> jsval \<Rightarrow> outcome" where
  "removeAllListeners self type =
     (let (acts, err, self') = emit self ''remoteAllListeners'' type Undefined
      in (LocalRemoveAllListeners type # acts, err, self'))"

section \<open>The server's handlers for a connected client\<close>

text \<open>The \<^verbatim>\<open>message\<close> handler (lines 486-493).\<close>

definition message :: "hook \<Rightarrow> client \<Rightarrow> string \<Rightarrow> jsval \<Rightarrow> jsval \<Rightarrow> outcome" where
  "message self client event data callback =
     (case addOrRemoveEvent (h_names self) (h_names_proto self) (c_name client) event data of
        Inl err \<Rightarrow> ([], Some err, self)
      | Inr (handled, names', proto') \<Rightarrow>
          if handled then ([], None, self\<lparr>h_names := names', h_names_proto := proto'\<rparr>)
          else emit (self\<lparr>h_names := names', h_names_proto := proto'\<rparr>) event data callback)"

text \<open>
  \<^verbatim>\<open>Hook.prototype.hasEvent (parts, remote)\<close> (lines 731-736). \<^verbatim>\<open>this.listeners\<close> is
  EventEmitter2's: it returns the sequence of the listeners matching \<^verbatim>\<open>parts\<close>
  (an array, empty when none matches), taken here as the parameter \<open>listeners\<close>.
\<close>

definition hasEvent :: "(jsval \<Rightarrow> jsval list) \<Rightarrow> jsval \<Rightarrow> jsval \<Rightarrow> jsval" where
  "hasEvent listeners parts remote =
     (if \<not> is_string parts \<and> \<not> is_array parts then JBool False
      else JArr (listeners parts) [])"

text \<open>
  The \<^verbatim>\<open>hasEvent\<close> method a hook exports (lines 495-497 on the server, 630-632 on the
  client): the arguments \<^verbatim>\<open>(err, send)\<close> it gives to the reply.
\<close>

definition hasEvent_handler ::
  "(jsval \<Rightarrow> jsval list) \<Rightarrow> jsval \<Rightarrow> jsval \<Rightarrow> jsval \<times> jsval" where
  "hasEvent_handler listeners parts remote = (Null, hasEvent listeners parts remote)"

text \<open>
  The function given to \<^verbatim>\<open>self.onAny\<close> (lines 503-556), up to its call of
  \<^verbatim>\<open>client.hasEvent\<close>: the parts and the event name it asks and would send, or nothing
  when the client is skipped. \<^verbatim>\<open>parts[0]\<close> is undefined on an empty array.
\<close>

definition onAny_intercept :: "hook \<Rightarrow> client \<Rightarrow> string \<Rightarrow> (string list \<times> string) option" where
  "onAny_intercept self client this_event =
     (let parts = split DELIMITER this_event;
          event = (if \<not> h_remote self then join DELIMITER [this_event] else this_event);
          parts0 = (case parts of [] \<Rightarrow> Undefined | p # ps \<Rightarrow> JStr p)
      in if c_message client \<and> parts0 \<noteq> c_name client
         then Some (parts, if length parts = 1 then h_name self @ DELIMITER @ event else event)
         else None)"

text \<open>The reply \<^verbatim>\<open>function (err, send)\<close> given to \<^verbatim>\<open>client.hasEvent\<close> (lines 536-554).\<close>

definition hasEvent_reply ::
  "hook \<Rightarrow> client \<Rightarrow> string \<Rightarrow> jsval \<Rightarrow> callback \<Rightarrow> jsval \<Rightarrow> jsval
     \<Rightarrow> action list \<times> js_error option" where
  "hasEvent_reply self client event data callback err send =
     (if \<not> truthy send then ([], None)
      else
        (let (sent, e) = transports_forEach (h_transports self)
                 (\<lambda>t. TransportMessage t event data callback)
         in case e of
              Some x \<Rightarrow> (sent, Some x)
            | None \<Rightarrow> (sent @ [ClientMessage client event data callback], None)))"

text \<open>
  One run of the intercept for one client whose hook answers \<^verbatim>\<open>hasEvent\<close> with its
  own listeners: the question, the client's answer, the reply. The callback crosses
  the wire as the opaque second argument of \<^verbatim>\<open>hasEvent\<close>.
\<close>

definition broadcast ::
  "hook \<Rightarrow> client \<Rightarrow> (jsval \<Rightarrow> jsval list) \<Rightarrow> string \<Rightarrow> jsval \<Rightarrow> callback
     \<Rightarrow> action list \<times> js_error option" where
  "broadcast self client client_listeners this_event data callback =
     (case onAny_intercept self client this_event of
        None \<Rightarrow> ([], None)
      | Some (parts, event) \<Rightarrow>
          (let remote = (case callback of Passed f \<Rightarrow> f | Synthesized ev d \<Rightarrow> JFun [] []);
               (err, send) = hasEvent_handler client_listeners (JArr (map JStr parts) []) remote
           in hasEvent_reply self client event data callback err send))"

section \<open>\<^verbatim>\<open>start\<close> and the reply to \<^verbatim>\<open>report\<close> in \<^verbatim>\<open>connect\<close>\<close>





text \<open>
  \<^verbatim>\<open>checkVersion(pkginfo)\<close> (lines 673-679). \<^verbatim>\<open>semver.neq\<close> belongs to the semver
  package and is the parameter \<open>neq\<close>.
\<close>

definition checkVersion ::
  "(jsval \<Rightarrow> jsval \<Rightarrow> bool) \<Rightarrow> hook \<Rightarrow> jsval \<Rightarrow> js_error option" where
  "checkVersion neq self pkginfo =
     (case getProp pkginfo ''version'' of
        Inl e \<Rightarrow> Some e
      | Inr remote_version \<Rightarrow>
          (case getProp (h_pkginfo self) ''version'' of
             Inl e \<Rightarrow> Some e
           | Inr self_version \<Rightarrow>
               if neq remote_version self_version
               then Some (Error (''remote.version='' @ toKey remote_version
                                  @ '' !== self.pkginfo.version='' @ toKey self_version))
               else None))"

text \<open>
  The reply \<^verbatim>\<open>function (newName, newID, pkginfo)\<close> that \<^verbatim>\<open>connect\<close> gives to
  \<^verbatim>\<open>remote.report\<close> (lines 663-689); \<open>callback\<close> is the callback of \<^verbatim>\<open>connect\<close>.
\<close>

definition report_reply ::
  "(jsval \<Rightarrow> jsval \<Rightarrow> bool) \<Rightarrow> hook \<Rightarrow> jsval \<Rightarrow> string \<Rightarrow> jsval \<Rightarrow> jsval \<Rightarrow> outcome" where
  "report_reply neq self callback newName newID pkginfo =
     (let self' = self\<lparr>h_name := newName, h_id := newID\<rparr>
      in case checkVersion neq self' pkginfo of
           Some e \<Rightarrow> ([], Some e, self')
         | None \<Rightarrow>
             (let emitted = [Emit ''hook::connected'' (h_port self'),
                             Emit ''hook::started'' (h_port self')]
              in if truthy callback
                 then (if is_function callback
                       then (emitted @ [Apply callback []], None, self')
                       else (emitted, Some TypeError, self'))
                 else (emitted, None, self')))"


section \<open>A server with one connected client\<close>

text \<open>
  The hooks of the scenarios: a server \<^verbatim>\<open>srv\<close> listening on port 5000, and the hook
  \<^verbatim>\<open>worker\<close> connected to it, registered with one listener counted for the pattern
  \<^verbatim>\<open>alpha::*\<close>; the server's own entry counts one listener for \<^verbatim>\<open>query\<close>.
\<close>

definition example_server :: hook where
  "example_server =
     \<lparr>h_name = ''srv'', h_pkginfo = JObj [(''version'', JStr ''1.2.3'')],
      h_remote = False, h_server = True,
      h_names =
        [(''srv'', \<lparr>e_name = JStr ''srv'', e_type = JStr ''hook'', e_session = None,
                    e_remote = Some (JNum 5000, JStr ''127.0.0.1''),
                    e_events = Some [(''query'', 1)]\<rparr>),
         (''worker'', \<lparr>e_name = JStr ''worker'', e_type = JStr ''hook'', e_session = Some 1,
                       e_remote = Some (JNum 40000, JStr ''127.0.0.1''),
                       e_events = Some [(''alpha::*'', 1)]\<rparr>)],
      h_names_proto = None,
      h_transports = [], h_port = JNum 5000, h_id = JNum 0\<rparr>"

definition example_worker :: client where
  "example_worker = \<lparr>c_name = JStr ''worker'', c_message = True\<rparr>"

definition example_worker_hook :: hook where
  "example_worker_hook =
     \<lparr>h_name = ''worker'', h_pkginfo = JObj [(''version'', JStr ''1.2.3'')],
      h_remote = True, h_server = False, h_names = [], h_names_proto = None,
      h_transports = [], h_port = JNum 5000, h_id = Null\<rparr>"


section \<open>Name assignment: what \<^verbatim>\<open>checkName\<close> computes\<close>

lemma checkName_None_free:
  "name_free self_name names name \<Longrightarrow>
   checkName self_name names proto name None =
     (name, names_put names proto (toKey name) (fresh_entry name))"
  by (subst checkName.simps) simp

lemma checkName_None_taken:
  "\<not> name_free self_name names name \<Longrightarrow>
   checkName self_name names proto name None = checkName self_name names proto name (Some 0)"
  by (subst checkName.simps) simp

lemma checkName_Some_free:
  "available self_name names (suffixed (toKey name) i) \<Longrightarrow>
   checkName self_name names proto name (Some i) =
     (JStr (suffixed (toKey name) i),
      names_put names proto (suffixed (toKey name) i)
        (fresh_entry (JStr (suffixed (toKey name) i))))"
  by (subst checkName.simps) (simp add: name_free_def)

lemma checkName_Some_taken:
  "\<not> available self_name names (suffixed (toKey name) i) \<Longrightarrow>
   checkName self_name names proto name (Some i)
     = checkName self_name names proto name (Some (Suc i))"
  by (subst checkName.simps) (simp add: name_free_def)

text \<open>From a counter: the first free suffix at or after it.\<close>

lemma checkName_Some_first_free:
  "\<exists>k\<ge>i. checkName self_name names proto name (Some i) =
            (JStr (suffixed (toKey name) k),
             names_put names proto (suffixed (toKey name) k)
               (fresh_entry (JStr (suffixed (toKey name) k))))
        \<and> available self_name names (suffixed (toKey name) k)
        \<and> (\<forall>j. i \<le> j \<and> j < k \<longrightarrow> \<not> available self_name names (suffixed (toKey name) j))"
proof (induction "card (taken self_name names (toKey name) i)" arbitrary: i rule: less_induct)
  case less
  show ?case
  proof (cases "available self_name names (suffixed (toKey name) i)")
    case True
    then have "checkName self_name names proto name (Some i) =
        (JStr (suffixed (toKey name) i),
         names_put names proto (suffixed (toKey name) i)
           (fresh_entry (JStr (suffixed (toKey name) i))))"
      by (rule checkName_Some_free)
    with True show ?thesis by (intro exI [of _ i]) auto
  next
    case False
    then have step: "checkName self_name names proto name (Some i)
        = checkName self_name names proto name (Some (Suc i))"
      by (rule checkName_Some_taken)
    from less [OF taken_Suc_less [OF False]]
    obtain k where k: "Suc i \<le> k"
      "checkName self_name names proto name (Some (Suc i)) =
         (JStr (suffixed (toKey name) k),
          names_put names proto (suffixed (toKey name) k)
            (fresh_entry (JStr (suffixed (toKey name) k))))"
      "available self_name names (suffixed (toKey name) k)"
      "\<forall>j. Suc i \<le> j \<and> j < k \<longrightarrow> \<not> available self_name names (suffixed (toKey name) j)"
      by blast
    have "\<forall>j. i \<le> j \<and> j < k \<longrightarrow> \<not> available self_name names (suffixed (toKey name) j)"
    proof (intro allI impI)
      fix j assume "i \<le> j \<and> j < k"
      then consider "j = i" | "Suc i \<le> j \<and> j < k" by linarith
      then show "\<not> available self_name names (suffixed (toKey name) j)"
        using False k(4) by cases auto
    qed
    with k step show ?thesis by (intro exI [of _ k]) auto
  qed
qed

text \<open>A reported string: the string itself when free, else its first free suffix.\<close>

lemma checkName_string_result:
  "\<exists>nm. checkName self_name names proto (JStr s) None =
            (JStr nm, names_put names proto nm (fresh_entry (JStr nm)))
       \<and> available self_name names nm
       \<and> (if available self_name names s then nm = s
           else \<exists>k. nm = suffixed s k
                  \<and> (\<forall>j. j < k \<longrightarrow> \<not> available self_name names (suffixed s j)))"
proof (cases "available self_name names s")
  case True
  then have "checkName self_name names proto (JStr s) None =
      (JStr s, names_put names proto s (fresh_entry (JStr s)))"
    using checkName_None_free [of self_name names "JStr s" proto] by (simp add: name_free_def)
  with True show ?thesis by auto
next
  case False
  then have "checkName self_name names proto (JStr s) None
      = checkName self_name names proto (JStr s) (Some 0)"
    using checkName_None_taken [of self_name names "JStr s" proto] by (simp add: name_free_def)
  with False checkName_Some_first_free [of 0 self_name names proto "JStr s"] show ?thesis
    by auto
qed

text \<open>A reported value that is not a string is assigned as it is, whatever is registered.\<close>

lemma checkName_not_a_string:
  "\<not> is_string name \<Longrightarrow>
   checkName self_name names proto name None =
     (name, names_put names proto (toKey name) (fresh_entry name))"
  by (rule checkName_None_free) (cases name; simp add: name_free_def)

subsection \<open>Registry operations keep the set of names\<close>

lemma map_of_Some_key: "map_of al k = Some v \<Longrightarrow> k \<in> set (map fst al)"
  by (induction al) (auto split: if_splits)

lemma update_present_keys: "map_of al k = Some v \<Longrightarrow> map fst (AList.update k w al) = map fst al"
  using map_of_Some_key [of al k v] by (simp add: update_keys)

lemma names_put_ordinary:
  "k \<noteq> ''__proto__'' \<Longrightarrow> names_put names proto k e = (AList.update k e names, proto)"
  by (simp add: names_put_def)

lemma names_put_keys:
  assumes "names_get names proto k = AnEntry e" and "names_put names proto k e' = (names', proto')"
  shows "map fst names' = map fst names"
  using assms
  by (auto simp: names_get_def names_put_def update_present_keys
           split: option.splits if_splits)

lemma names_get_put:
  assumes "names_put names proto k e = (names', proto')"
  shows "names_get names' proto' k = AnEntry e"
  using assms
  by (auto simp: names_get_def names_put_def update_conv' split: if_splits)

lemma addOrRemoveEvent_keys:
  assumes "addOrRemoveEvent names proto clientName event data = Inr (handled, names', proto')"
  shows "map fst names' = map fst names"
proof (cases "names_get names proto (toKey clientName)")
  case Missing
  with assms show ?thesis by (simp add: addOrRemoveEvent_def)
next
  case ObjectPrototype
  with assms show ?thesis by (simp add: addOrRemoveEvent_def split: if_splits)
next
  case (AnEntry e)
  with assms show ?thesis
    by (auto simp: addOrRemoveEvent_def Let_def split: option.splits if_splits
             dest: names_put_keys [OF AnEntry])
qed

lemma addOrRemoveEvent_newListener:
  assumes "names_get names proto (toKey clientName) = AnEntry e" and "e_events e = Some evs"
  shows "\<exists>names' proto' e' evs'.
           addOrRemoveEvent names proto clientName ''newListener'' data = Inr (True, names', proto')
           \<and> names_get names' proto' (toKey clientName) = AnEntry e' \<and> e_events e' = Some evs'"
proof -
  define evs' where "evs' = AList.update (toKey data)
      ((case map_of evs (toKey data) of None \<Rightarrow> 0 | Some n \<Rightarrow> if n \<noteq> 0 then n else 0) + 1) evs"
  obtain names' proto' where put:
    "names_put names proto (toKey clientName) (e\<lparr>e_events := Some evs'\<rparr>) = (names', proto')"
    by (cases "names_put names proto (toKey clientName) (e\<lparr>e_events := Some evs'\<rparr>)")
  have "addOrRemoveEvent names proto clientName ''newListener'' data = Inr (True, names', proto')"
    using assms put by (simp add: addOrRemoveEvent_def Let_def evs'_def)
  moreover have "names_get names' proto' (toKey clientName) = AnEntry (e\<lparr>e_events := Some evs'\<rparr>)"
    using put by (rule names_get_put)
  ultimately show ?thesis by auto
qed

lemma registerEvents_total:
  assumes "names_get names proto (toKey clientName) = AnEntry e" and "e_events e = Some evs"
  shows "\<exists>names' proto'. registerEvents names proto clientName events = Inr (names', proto')
           \<and> map fst names' = map fst names"
  using assms
proof (induction events arbitrary: names proto e evs)
  case Nil
  then show ?case by simp
next
  case (Cons event events)
  from addOrRemoveEvent_newListener [OF Cons.prems, of event]
  obtain names1 proto1 e1 evs1 where
    step: "addOrRemoveEvent names proto clientName ''newListener'' event = Inr (True, names1, proto1)"
    and e1: "names_get names1 proto1 (toKey clientName) = AnEntry e1" "e_events e1 = Some evs1"
    by blast
  from Cons.IH [OF e1] obtain names' proto' where
    rest: "registerEvents names1 proto1 clientName events = Inr (names', proto')"
    and keys: "map fst names' = map fst names1"
    by blast
  from step have "map fst names1 = map fst names"
    by (rule addOrRemoveEvent_keys)
  with step rest keys show ?case by simp
qed

subsection \<open>Reported strings other than \<^verbatim>\<open>__proto__\<close> get names of their own\<close>

lemma last_show_nat: "last (show_nat k) = digit (k mod 10)"
  by (subst show_nat.simps) simp

lemma digit_not_underscore: "digit (k mod 10) \<noteq> CHR ''_''"
proof -
  have "k mod 10 < length ''0123456789''" by simp
  then have "''0123456789'' ! (k mod 10) \<in> set ''0123456789''"
    by (rule nth_mem)
  then show ?thesis unfolding digit_def by auto
qed

lemma suffixed_not_proto: "suffixed s k \<noteq> ''__proto__''"
proof
  assume eq: "suffixed s k = ''__proto__''"
  have "last (suffixed s k) = last (show_nat k)"
    by (simp add: suffixed_def show_nat_nonempty)
  with eq have "digit (k mod 10) = CHR ''_''"
    by (simp add: last_show_nat)
  with digit_not_underscore show False by blast
qed

lemma report_string_result:
  assumes "d_name d = JStr s" and "s \<noteq> ''__proto__''"
  shows "\<exists>self' nm. report self c d = Inr (self', (JStr nm, Null, h_pkginfo self))
       \<and> h_name self' = h_name self
       \<and> map fst (h_names self') = map fst (h_names self) @ [nm]
       \<and> available (h_name self) (h_names self) nm
       \<and> (if available (h_name self) (h_names self) s then nm = s
           else \<exists>k. nm = suffixed s k
                  \<and> (\<forall>j. j < k \<longrightarrow> \<not> available (h_name self) (h_names self) (suffixed s j)))"
proof -
  from checkName_string_result [of "h_name self" "h_names self" "h_names_proto self" s]
  obtain nm where
    ck: "checkName (h_name self) (h_names self) (h_names_proto self) (JStr s) None =
           (JStr nm, names_put (h_names self) (h_names_proto self) nm (fresh_entry (JStr nm)))"
    and av: "available (h_name self) (h_names self) nm"
    and rule: "if available (h_name self) (h_names self) s then nm = s
           else \<exists>k. nm = suffixed s k
                  \<and> (\<forall>j. j < k \<longrightarrow> \<not> available (h_name self) (h_names self) (suffixed s j))"
    by blast
  have ord: "nm \<noteq> ''__proto__''"
    using rule assms(2) suffixed_not_proto by (auto split: if_splits)
  define names1 where "names1 = AList.update nm (fresh_entry (JStr nm)) (h_names self)"
  define reporter where "reporter = (fresh_entry (JStr nm))
      \<lparr>e_type := d_type d, e_session := Some (conn_id c),
       e_remote := Some (remotePort c, remoteAddress c), e_events := Some []\<rparr>"
  define names2 where "names2 = AList.update nm reporter names1"
  have ck': "checkName (h_name self) (h_names self) (h_names_proto self) (d_name d) None =
           (JStr nm, names1, h_names_proto self)"
    using ck ord assms(1) by (simp add: names_put_ordinary names1_def)
  have get1: "names_get names1 (h_names_proto self) nm = AnEntry (fresh_entry (JStr nm))"
    by (simp add: names_get_def names1_def update_conv')
  have put2: "names_put names1 (h_names_proto self) nm reporter = (names2, h_names_proto self)"
    using ord by (simp add: names_put_ordinary names2_def)
  have keys2: "map fst names2 = map fst (h_names self) @ [nm]"
    using av by (simp add: names2_def names1_def available_def update_keys)
  have look: "names_get names2 (h_names_proto self) (toKey (JStr nm)) = AnEntry reporter"
    by (simp add: names_get_def names2_def update_conv')
  have ev: "e_events reporter = Some []"
    by (simp add: reporter_def)
  from registerEvents_total [OF look ev, of "d_events d"]
  obtain names3 proto3 where
    reg: "registerEvents names2 (h_names_proto self) (JStr nm) (d_events d) = Inr (names3, proto3)"
    and keys3: "map fst names3 = map fst names2"
    by blast
  have "report self c d =
      Inr (self\<lparr>h_names := names3, h_names_proto := proto3\<rparr>, (JStr nm, Null, h_pkginfo self))"
    using ck' get1 put2 reg by (simp add: report_def reporter_def)
  with keys2 keys3 av rule show ?thesis by simp
qed

lemma reports_string_names_unique:
  assumes "distinct (map fst (h_names self))"
    and "\<forall>r \<in> set rs. \<exists>s. d_name (snd r) = JStr s \<and> s \<noteq> ''__proto__''"
  shows "\<exists>self' nms. reports self rs = Inr (self', map JStr nms)
       \<and> length nms = length rs
       \<and> h_name self' = h_name self
       \<and> map fst (h_names self') = map fst (h_names self) @ nms
       \<and> distinct (map fst (h_names self'))
       \<and> distinct nms
       \<and> h_name self \<notin> set nms"
  using assms
proof (induction rs arbitrary: self)
  case Nil
  then show ?case by simp
next
  case (Cons r rs)
  obtain c d where r: "r = (c, d)" by (cases r)
  from Cons.prems(2) r obtain s where s: "d_name d = JStr s" "s \<noteq> ''__proto__''"
    by auto
  from report_string_result [OF s, of self c] obtain self1 nm where
    rep: "report self c d = Inr (self1, (JStr nm, Null, h_pkginfo self))"
    and nm1: "h_name self1 = h_name self"
    and keys1: "map fst (h_names self1) = map fst (h_names self) @ [nm]"
    and av: "available (h_name self) (h_names self) nm"
    by blast
  have d1: "distinct (map fst (h_names self1))"
    using keys1 av Cons.prems(1) by (simp add: available_def)
  have rest_ok: "\<forall>r \<in> set rs. \<exists>s. d_name (snd r) = JStr s \<and> s \<noteq> ''__proto__''"
    using Cons.prems(2) by simp
  from Cons.IH [OF d1 rest_ok] obtain self2 nms where
    rest: "reports self1 rs = Inr (self2, map JStr nms)"
    and len: "length nms = length rs"
    and nm2: "h_name self2 = h_name self1"
    and keys2: "map fst (h_names self2) = map fst (h_names self1) @ nms"
    and d2: "distinct (map fst (h_names self2))"
    and own: "h_name self1 \<notin> set nms"
    by blast
  have "reports self (r # rs) = Inr (self2, map JStr (nm # nms))"
    using r rep rest by simp
  moreover have keys: "map fst (h_names self2) = map fst (h_names self) @ (nm # nms)"
    using keys1 keys2 by simp
  moreover have "h_name self \<notin> set (nm # nms)"
    using own nm1 av by (auto simp: available_def)
  moreover have "distinct (nm # nms)"
    using keys d2 by simp
  ultimately show ?case
    using len nm1 nm2 d2 by (intro exI [of _ self2] exI [of _ "nm # nms"]) simp
qed


section \<open>Names in the registry\<close>

text \<open>
  C2. The claim: whatever the clients report, the names assigned are unique. A reported
  string other than \<^verbatim>\<open>__proto__\<close> does get a name of its own, the string itself or its
  first free suffix (lemmas \<open>checkName_string_result\<close>, \<open>reports_string_names_unique\<close>).
  But two clients that both report \<^verbatim>\<open>__proto__\<close> are both named \<^verbatim>\<open>__proto__\<close>: the
  assignment of line 459 replaces the prototype of the registry and adds no key, so the
  test of line 458 passes again, and the second client takes the place of the first. And
  two clients that both report the number 5 are both named 5: no key is identical to a
  number, so the test passes whatever is registered (lemma \<open>checkName_not_a_string\<close>),
  and the entry under the key \<^verbatim>\<open>5\<close> is overwritten, one entry for the two clients
  beside the two entries that were there.
\<close>

theorem reports_assign_same_name_twice:
  "reports example_server
     [(\<lparr>conn_id = 2, remotePort = JNum 40001, remoteAddress = JStr ''127.0.0.1''\<rparr>,
       \<lparr>d_name = JStr ''__proto__'', d_type = JStr ''hook'', d_events = [JStr ''beta'']\<rparr>),
      (\<lparr>conn_id = 3, remotePort = JNum 40002, remoteAddress = JStr ''127.0.0.1''\<rparr>,
       \<lparr>d_name = JStr ''__proto__'', d_type = JStr ''hook'', d_events = [JStr ''beta'']\<rparr>)]
   = Inr (example_server
            \<lparr>h_names_proto :=
               Some \<lparr>e_name = JStr ''__proto__'', e_type = JStr ''hook'', e_session = Some 3,
                     e_remote = Some (JNum 40002, JStr ''127.0.0.1''),
                     e_events = Some [(''beta'', 1)]\<rparr>\<rparr>,
          [JStr ''__proto__'', JStr ''__proto__''])
   \<and> (case reports example_server
       [(\<lparr>conn_id = 2, remotePort = JNum 40001, remoteAddress = JStr ''127.0.0.1''\<rparr>,
         \<lparr>d_name = JNum 5, d_type = JStr ''hook'', d_events = [JStr ''beta'']\<rparr>),
        (\<lparr>conn_id = 3, remotePort = JNum 40002, remoteAddress = JStr ''127.0.0.1''\<rparr>,
         \<lparr>d_name = JNum 5, d_type = JStr ''hook'', d_events = []\<rparr>)] of
        Inl err \<Rightarrow> None
      | Inr (self', assigned) \<Rightarrow>
          Some (assigned, length (h_names self'), map_of (h_names self') ''5''))
     = Some ([JNum 5, JNum 5], 3,
             Some \<lparr>e_name = JNum 5, e_type = JStr ''hook'', e_session = Some 3,
                   e_remote = Some (JNum 40002, JStr ''127.0.0.1''),
                   e_events = Some []\<rparr>)"
  by (simp add: report_def checkName_None_free name_free_def available_def names_put_def
        names_get_def fresh_entry_def addOrRemoveEvent_def show_int_def show_nat_small
        digit_def example_server_def)

section \<open>Subscription events on the server\<close>

lemma addOrRemoveEvent_unknown_event:
  assumes "event \<noteq> ''newListener''" and "event \<noteq> ''removeListener''"
    and "event \<noteq> ''removeAllListeners''"
    and "map_of names (toKey clientName) = Some e"
  shows "addOrRemoveEvent names proto clientName event data = Inr (False, names, proto)"
  using assms by (simp add: addOrRemoveEvent_def names_get_def)

lemma addOrRemoveEvent_removeAllListeners:
  assumes "map_of names (toKey clientName) = Some e" and "e_events e = Some evs"
  shows "addOrRemoveEvent names proto clientName ''removeAllListeners'' data =
           Inr (True, AList.update (toKey clientName)
                        (e\<lparr>e_events := Some (AList.delete (toKey data) evs)\<rparr>) names, proto)"
  using assms by (simp add: addOrRemoveEvent_def names_get_def names_put_def)

text \<open>
  C10. When a registered client (its entry has an \<^verbatim>\<open>events\<close> table) sends
  \<^verbatim>\<open>newListener\<close> or \<^verbatim>\<open>removeListener\<close> through the \<^verbatim>\<open>message\<close> method, the handler
  returns without any call: no \<^verbatim>\<open>self.emit\<close>, hence no local listener, no transport and
  no client is reached. The registry afterwards is the registry before with the
  \<^verbatim>\<open>events\<close> table of that client's entry replaced; nothing else of the hook changes.
\<close>

theorem message_meta_event_only_adjusts_registry:
  assumes "event = ''newListener'' \<or> event = ''removeListener''"
    and "map_of (h_names self) (toKey (c_name client)) = Some e"
    and "e_events e = Some evs"
  shows "\<exists>evs'. message self client event data callback =
           ([], None,
            self\<lparr>h_names := AList.update (toKey (c_name client))
                                (e\<lparr>e_events := Some evs'\<rparr>) (h_names self)\<rparr>)"
proof -
  have same: "AList.update (toKey (c_name client)) (e\<lparr>e_events := Some evs\<rparr>) (h_names self)
                = h_names self"
    using assms(2,3) by (simp add: update_triv)
  from assms(1) show ?thesis
  proof
    assume "event = ''newListener''"
    then show ?thesis
      using assms(2,3) by (simp add: message_def addOrRemoveEvent_def names_get_def names_put_def Let_def)
           blast
  next
    assume ev: "event = ''removeListener''"
    show ?thesis
    proof (cases "map_of evs (toKey data)")
      case None
      then have "message self client event data callback = ([], None, self)"
        using ev assms(2,3)
        by (simp add: message_def addOrRemoveEvent_def names_get_def names_put_def)
      with same show ?thesis
        by (intro exI [of _ evs]) simp
    next
      case (Some n)
      show ?thesis
      proof (cases "n = 0")
        case True
        then have "message self client event data callback = ([], None, self)"
          using ev Some assms(2,3)
          by (simp add: message_def addOrRemoveEvent_def names_get_def names_put_def)
        with same show ?thesis
          by (intro exI [of _ evs]) simp
      next
        case False
        then show ?thesis
          using ev Some assms(2,3)
          by (simp add: message_def addOrRemoveEvent_def names_get_def names_put_def Let_def)
           blast
      qed
    qed
  qed
qed

theorem message_meta_event_only_adjusts_registry_witness:
  "map_of (h_names example_server) (toKey (c_name example_worker))
     = Some \<lparr>e_name = JStr ''worker'', e_type = JStr ''hook'', e_session = Some 1,
             e_remote = Some (JNum 40000, JStr ''127.0.0.1''),
             e_events = Some [(''alpha::*'', 1)]\<rparr>
   \<and> (\<exists>evs'. message example_server example_worker ''newListener'' (JStr ''beta'') Undefined =
           ([], None,
            example_server\<lparr>h_names := AList.update (toKey (c_name example_worker))
               (\<lparr>e_name = JStr ''worker'', e_type = JStr ''hook'', e_session = Some 1,
                 e_remote = Some (JNum 40000, JStr ''127.0.0.1''),
                 e_events = Some [(''alpha::*'', 1)]\<rparr>\<lparr>e_events := Some evs'\<rparr>)
               (h_names example_server)\<rparr>))
   \<and> message example_server example_worker ''removeListener'' (JStr ''alpha::*'') Undefined =
           ([], None,
            example_server\<lparr>h_names :=
              [(''srv'', \<lparr>e_name = JStr ''srv'', e_type = JStr ''hook'', e_session = None,
                    e_remote = Some (JNum 5000, JStr ''127.0.0.1''),
                    e_events = Some [(''query'', 1)]\<rparr>),
               (''worker'', \<lparr>e_name = JStr ''worker'', e_type = JStr ''hook'', e_session = Some 1,
                       e_remote = Some (JNum 40000, JStr ''127.0.0.1''),
                       e_events = Some []\<rparr>)]\<rparr>)
   \<and> fst (message example_server example_worker ''job'' (JNum 1) Undefined) =
           [Log ''job'' (JNum 1), LocalEmit ''job'' (JNum 1) (Synthesized ''job'' (JNum 1))]"
proof -
  have look: "map_of (h_names example_server) (toKey (c_name example_worker))
     = Some \<lparr>e_name = JStr ''worker'', e_type = JStr ''hook'', e_session = Some 1,
             e_remote = Some (JNum 40000, JStr ''127.0.0.1''),
             e_events = Some [(''alpha::*'', 1)]\<rparr>"
    by (simp add: example_server_def example_worker_def)
  have rm: "message example_server example_worker ''removeListener'' (JStr ''alpha::*'') Undefined =
           ([], None,
            example_server\<lparr>h_names :=
              [(''srv'', \<lparr>e_name = JStr ''srv'', e_type = JStr ''hook'', e_session = None,
                    e_remote = Some (JNum 5000, JStr ''127.0.0.1''),
                    e_events = Some [(''query'', 1)]\<rparr>),
               (''worker'', \<lparr>e_name = JStr ''worker'', e_type = JStr ''hook'', e_session = Some 1,
                       e_remote = Some (JNum 40000, JStr ''127.0.0.1''),
                       e_events = Some []\<rparr>)]\<rparr>)"
    by (simp add: message_def addOrRemoveEvent_def names_get_def names_put_def
          example_server_def example_worker_def)
  have job: "fst (message example_server example_worker ''job'' (JNum 1) Undefined) =
           [Log ''job'' (JNum 1), LocalEmit ''job'' (JNum 1) (Synthesized ''job'' (JNum 1))]"
    by (simp add: message_def addOrRemoveEvent_def names_get_def names_put_def emit_def
          reserved_def
          example_server_def example_worker_def)
  from message_meta_event_only_adjusts_registry [OF _ look, of "''newListener''" _ "JStr ''beta''" Undefined]
  have "\<exists>evs'. message example_server example_worker ''newListener'' (JStr ''beta'') Undefined =
           ([], None,
            example_server\<lparr>h_names := AList.update (toKey (c_name example_worker))
               (\<lparr>e_name = JStr ''worker'', e_type = JStr ''hook'', e_session = Some 1,
                 e_remote = Some (JNum 40000, JStr ''127.0.0.1''),
                 e_events = Some [(''alpha::*'', 1)]\<rparr>\<lparr>e_events := Some evs'\<rparr>)
               (h_names example_server)\<rparr>)"
    by simp
  with look rm job show ?thesis by blast
qed

lemma message_remoteAllListeners_keeps_registry:
  assumes "map_of (h_names self) (toKey (c_name client)) = Some e"
  shows "snd (snd (message self client ''remoteAllListeners'' data callback)) = self"
  using assms
  by (simp add: message_def emit_def reserved_def addOrRemoveEvent_def names_get_def
           names_put_def
           split: option.splits)

lemma removeAllListeners_keeps_registry:
  "snd (snd (removeAllListeners self type)) = self"
  by (simp add: removeAllListeners_def emit_def reserved_def addOrRemoveEvent_def
           names_get_def names_put_def
           split: option.splits)

lemma off_decrements_count:
  "snd (snd (off example_server (JStr ''query'') (JFun ''function () {}'' []))) =
     example_server\<lparr>h_names :=
        [(''srv'', \<lparr>e_name = JStr ''srv'', e_type = JStr ''hook'', e_session = None,
                    e_remote = Some (JNum 5000, JStr ''127.0.0.1''), e_events = Some []\<rparr>),
         (''worker'', \<lparr>e_name = JStr ''worker'', e_type = JStr ''hook'', e_session = Some 1,
                       e_remote = Some (JNum 40000, JStr ''127.0.0.1''),
                       e_events = Some [(''alpha::*'', 1)]\<rparr>)]\<rparr>"
  by (simp add: off_def emit_def reserved_def addOrRemoveEvent_def names_get_def
        names_put_def example_server_def)

text \<open>
  C1. The claim: after \<^verbatim>\<open>removeAllListeners(pattern)\<close> of a client, the server's entry
  for that client has lost the key of the pattern, and likewise the server's own entry
  when the server calls it. \<^verbatim>\<open>_addOrRemoveEvent\<close> does delete the key for the event
  \<^verbatim>\<open>removeAllListeners\<close> (lemma \<open>addOrRemoveEvent_removeAllListeners\<close>), but
  \<^verbatim>\<open>Hook.prototype.removeAllListeners\<close> emits \<^verbatim>\<open>remoteAllListeners\<close>. The worker
  sends that name to the server, whose \<^verbatim>\<open>message\<close> handler does not take it for a
  subscription event and emits it; the registry is unchanged and still counts a
  listener of the worker at \<^verbatim>\<open>alpha::*\<close>. The server's own call, for \<^verbatim>\<open>query\<close>,
  leaves its registry unchanged too, with the listener of the server still counted.
  Neither path ever changes the registry (lemmas
  \<open>message_remoteAllListeners_keeps_registry\<close>, \<open>removeAllListeners_keeps_registry\<close>),
  while \<^verbatim>\<open>off\<close>, which emits \<^verbatim>\<open>removeListener\<close>, is counted (lemma
  \<open>off_decrements_count\<close>).
\<close>

theorem removeAllListeners_keeps_subscription_key:
  "fst (removeAllListeners example_worker_hook (JStr ''alpha::*'')) =
     [LocalRemoveAllListeners (JStr ''alpha::*''),
      RemoteMessage ''remoteAllListeners'' (JStr ''alpha::*'') (Passed Undefined),
      LocalEmit ''remoteAllListeners'' (JStr ''alpha::*'') (Passed Undefined)]
   \<and> message example_server example_worker ''remoteAllListeners'' (JStr ''alpha::*'') Undefined =
       ([LocalEmit ''remoteAllListeners'' (JStr ''alpha::*'') (Passed Undefined)],
        None, example_server)
   \<and> map_option e_events (map_of (h_names example_server) ''worker'')
       = Some (Some [(''alpha::*'', 1)])
   \<and> removeAllListeners example_server (JStr ''query'') =
       ([LocalRemoveAllListeners (JStr ''query''),
         LocalEmit ''remoteAllListeners'' (JStr ''query'') (Passed Undefined)],
        None, example_server)
   \<and> map_option e_events (map_of (h_names example_server) ''srv'')
       = Some (Some [(''query'', 1)])"
  by (simp add: removeAllListeners_def message_def emit_def reserved_def
        addOrRemoveEvent_def names_get_def names_put_def
        example_server_def example_worker_def example_worker_hook_def)


section \<open>The synthesized callback\<close>

lemma synthesized_callback_error:
  assumes "truthy err"
  shows "\<exists>err'. setProp err ''ctx'' data = Inr err'
           \<and> synthesized_callback event data err result = Inr (Emit (event @ ''::error'') err')"
  using assms by (cases err) (simp_all add: synthesized_callback_def)

lemma synthesized_callback_result:
  assumes "\<not> truthy err" and "result \<noteq> Undefined" and "result \<noteq> Null"
  shows "\<exists>result'. setProp result ''ctx'' data = Inr result'
           \<and> synthesized_callback event data err result = Inr (Emit (event @ ''::result'') result')"
  using assms by (cases result) (simp_all add: synthesized_callback_def)

lemma setProp_object_ctx:
  "setProp (JObj fs) ''ctx'' data = Inr v \<Longrightarrow> getProp v ''ctx'' = Inr data"
  by (auto simp: update_conv')

text \<open>
  C3. The claim: every call of the callback that \<^verbatim>\<open>emit(T, d)\<close> creates emits exactly
  one of \<^verbatim>\<open>T::error\<close> and \<^verbatim>\<open>T::result\<close>. With an error it emits \<^verbatim>\<open>T::error\<close>, and with
  a result that is not undefined or null it emits \<^verbatim>\<open>T::result\<close> (lemmas
  \<open>synthesized_callback_error\<close>, \<open>synthesized_callback_result\<close>). But a listener that
  reports success without a result, \<^verbatim>\<open>callback(null)\<close> or \<^verbatim>\<open>callback()\<close>, makes
  \<^verbatim>\<open>result.ctx = data\<close> a TypeError: the callback of \<^verbatim>\<open>emit('job', {id: 7})\<close> emits
  neither event.
\<close>

theorem synthesized_callback_without_result_emits_nothing:
  "fst (emit example_server ''job'' (JObj [(''id'', JNum 7)]) Undefined) =
     [Log ''job'' (JObj [(''id'', JNum 7)]),
      LocalEmit ''job'' (JObj [(''id'', JNum 7)]) (Synthesized ''job'' (JObj [(''id'', JNum 7)]))]
   \<and> invoke (Synthesized ''job'' (JObj [(''id'', JNum 7)])) Null Undefined = Inl TypeError
   \<and> invoke (Synthesized ''job'' (JObj [(''id'', JNum 7)])) Undefined Undefined = Inl TypeError"
  by (simp add: emit_def reserved_def example_server_def synthesized_callback_def)

section \<open>Properties of \<^verbatim>\<open>hasEvent\<close> and of the broadcast intercept\<close>



lemma hasEvent_reply_falsy:
  "\<not> truthy send \<Longrightarrow> hasEvent_reply self client event data callback err send = ([], None)"
  by (simp add: hasEvent_reply_def)

lemma hasEvent_truthy_on_parts:
  "is_string parts \<or> is_array parts \<Longrightarrow> truthy (hasEvent listeners parts remote)"
  by (auto simp: hasEvent_def)

text \<open>
  C9. Given a \<^verbatim>\<open>parts\<close> that is neither a string nor an array,
  \<^verbatim>\<open>Hook.prototype.hasEvent\<close> returns \<^verbatim>\<open>false\<close> whatever the listeners are (it does not
  look at them), and the exported \<^verbatim>\<open>hasEvent\<close> method replies \<^verbatim>\<open>(null, false)\<close>: a
  definite negative answer, no exception.
\<close>

theorem hasEvent_malformed_parts_false:
  assumes "\<not> is_string parts" and "\<not> is_array parts"
  shows "hasEvent listeners parts remote = JBool False
       \<and> hasEvent_handler listeners parts remote = (Null, JBool False)"
  using assms by (simp add: hasEvent_def hasEvent_handler_def)

theorem hasEvent_malformed_parts_false_witness:
  "\<not> is_string (JNum 5) \<and> \<not> is_array (JNum 5)
   \<and> hasEvent (\<lambda>parts. [JFun ''function () {}'' []]) (JNum 5) Undefined = JBool False
   \<and> hasEvent_handler (\<lambda>parts. [JFun ''function () {}'' []]) (JObj []) Undefined
       = (Null, JBool False)"
  using hasEvent_malformed_parts_false [of "JNum 5" "\<lambda>parts. [JFun ''function () {}'' []]" Undefined]
        hasEvent_malformed_parts_false [of "JObj []" "\<lambda>parts. [JFun ''function () {}'' []]" Undefined]
  by simp

text \<open>
  C6. The claim: the second argument of the reply of the \<^verbatim>\<open>hasEvent\<close> method is a
  boolean telling whether the hook has a listener matching the parts. The code replies
  with \<^verbatim>\<open>this.listeners(parts)\<close> itself: for a hook without any listener, asked
  for \<^verbatim>\<open>['alpha', 'one']\<close>, the reply is \<^verbatim>\<open>(null, [])\<close>, an array, which is not a
  boolean and is truthy.
\<close>

theorem hasEvent_handler_replies_array:
  "hasEvent_handler (\<lambda>parts. []) (JArr [JStr ''alpha'', JStr ''one''] []) Undefined
     = (Null, JArr [] [])
   \<and> \<not> is_boolean (snd (hasEvent_handler (\<lambda>parts. [])
                          (JArr [JStr ''alpha'', JStr ''one''] []) Undefined))
   \<and> truthy (snd (hasEvent_handler (\<lambda>parts. [])
                          (JArr [JStr ''alpha'', JStr ''one''] []) Undefined))"
  by (simp add: hasEvent_handler_def hasEvent_def)

text \<open>
  C4. The claim: the server never calls \<^verbatim>\<open>message\<close> of a client that has no listener
  matching the topic. In the code the reply of the intercept does return before
  \<^verbatim>\<open>client.message\<close> when \<^verbatim>\<open>send\<close> is falsy (lemma \<open>hasEvent_reply_falsy\<close>), but the
  client's answer for a split topic is never falsy (lemma \<open>hasEvent_truthy_on_parts\<close>):
  the worker without any listener is sent \<^verbatim>\<open>alpha::one\<close> when the server emits it.
\<close>

theorem broadcast_reaches_client_without_listener:
  "fst (emit example_server ''alpha::one'' (JObj [(''v'', JNum 2)]) Undefined) =
     [Log ''alpha::one'' (JObj [(''v'', JNum 2)]),
      LocalEmit ''alpha::one'' (JObj [(''v'', JNum 2)])
        (Synthesized ''alpha::one'' (JObj [(''v'', JNum 2)]))]
   \<and> hasEvent (\<lambda>parts. []) (JArr [JStr ''alpha'', JStr ''one''] []) (JFun [] [])
       = JArr [] []
   \<and> broadcast example_server example_worker (\<lambda>parts. []) ''alpha::one''
       (JObj [(''v'', JNum 2)]) (Synthesized ''alpha::one'' (JObj [(''v'', JNum 2)]))
     = ([ClientMessage example_worker ''alpha::one'' (JObj [(''v'', JNum 2)])
           (Synthesized ''alpha::one'' (JObj [(''v'', JNum 2)]))],
        None)"
  by (simp add: emit_def reserved_def broadcast_def onAny_intercept_def hasEvent_handler_def
        hasEvent_def hasEvent_reply_def split_def DELIMITER_def example_server_def
        example_worker_def)




section \<open>Connecting and starting\<close>

text \<open>
  C7. In the reply to \<^verbatim>\<open>report\<close>, with the server's package information and the hook's
  own both carrying a version: when \<^verbatim>\<open>semver.neq\<close> holds of the two versions the reply
  ends with the error thrown by \<^verbatim>\<open>checkVersion\<close> and has made no call, so neither
  \<^verbatim>\<open>hook::connected\<close> nor \<^verbatim>\<open>hook::started\<close> is emitted; when it does not hold the reply
  emits \<^verbatim>\<open>hook::connected\<close> and then \<^verbatim>\<open>hook::started\<close>, both with the port, and after
  them calls the callback of \<^verbatim>\<open>connect\<close> if it is a function.
\<close>

theorem report_reply_checks_version:
  assumes "getProp pkginfo ''version'' = Inr remote_version"
    and "getProp (h_pkginfo self) ''version'' = Inr self_version"
  shows "(neq remote_version self_version \<longrightarrow>
            report_reply neq self callback newName newID pkginfo =
               ([], Some (Error (''remote.version='' @ toKey remote_version
                                  @ '' !== self.pkginfo.version='' @ toKey self_version)),
                self\<lparr>h_name := newName, h_id := newID\<rparr>))
       \<and> (\<not> neq remote_version self_version \<longrightarrow>
            fst (report_reply neq self callback newName newID pkginfo) =
               [Emit ''hook::connected'' (h_port self), Emit ''hook::started'' (h_port self)]
               @ (if is_function callback then [Apply callback []] else []))"
  using assms
  by (cases callback) (simp_all add: report_reply_def checkVersion_def Let_def)

theorem report_reply_checks_version_witness:
  "getProp (JObj [(''version'', JStr ''1.2.4'')]) ''version'' = Inr (JStr ''1.2.4'')
   \<and> getProp (h_pkginfo example_worker_hook) ''version'' = Inr (JStr ''1.2.3'')
   \<and> JStr ''1.2.4'' \<noteq> JStr ''1.2.3''
   \<and> report_reply (\<lambda>v w. v \<noteq> w) example_worker_hook (JFun ''function () {}'' [])
                ''worker'' Null (JObj [(''version'', JStr ''1.2.4'')]) =
               ([], Some (Error ''remote.version=1.2.4 !== self.pkginfo.version=1.2.3''),
                example_worker_hook\<lparr>h_name := ''worker'', h_id := Null\<rparr>)
   \<and> fst (report_reply (\<lambda>v w. v \<noteq> w) example_worker_hook (JFun ''function () {}'' [])
                ''worker'' Null (JObj [(''version'', JStr ''1.2.3'')])) =
               [Emit ''hook::connected'' (JNum 5000), Emit ''hook::started'' (JNum 5000),
                Apply (JFun ''function () {}'' []) []]"
proof -
  have a: "getProp (JObj [(''version'', JStr ''1.2.4'')]) ''version'' = Inr (JStr ''1.2.4'')"
    by simp
  have a': "getProp (JObj [(''version'', JStr ''1.2.3'')]) ''version'' = Inr (JStr ''1.2.3'')"
    by simp
  have b: "getProp (h_pkginfo example_worker_hook) ''version'' = Inr (JStr ''1.2.3'')"
    by (simp add: example_worker_hook_def)
  have p: "h_port example_worker_hook = JNum 5000"
    by (simp add: example_worker_hook_def)
  from report_reply_checks_version [OF a b, of "\<lambda>v w. v \<noteq> w" "JFun ''function () {}'' []" "''worker''" Null]
       report_reply_checks_version [OF a' b, of "\<lambda>v w. v \<noteq> w" "JFun ''function () {}'' []" "''worker''" Null]
       a b p
  show ?thesis by simp
qed





end
